theory Spec2Isabelle
  imports Complex_Main
begin

section \<open>The pub/sub lock of portalocker (redis.py)\<close>

text \<open>
  A shallow embedding of \<^verbatim>\<open>portalocker/redis.py\<close> and \<^verbatim>\<open>portalocker/exceptions.py\<close>.
  The lock object is a record of its attributes. The messaging client, the worker
  thread and the clock are outside the program: every call the lock makes on them is
  appended to the field \<open>calls\<close> (oldest first), and every value they hand back
  (the message read, the receiver count of a publish, a clock reading) is an argument
  of the function that models the method. Python floats are idealised as reals.
  A method call on an attribute that is \<^verbatim>\<open>None\<close> raises \<^verbatim>\<open>AttributeError\<close>, the
  constructor of the worker thread called without its \<^verbatim>\<open>sleep_time\<close> raises
  \<^verbatim>\<open>TypeError\<close>, and \<^verbatim>\<open>time.sleep\<close> of a negative duration raises \<^verbatim>\<open>ValueError\<close>;
  otherwise the calls on the client, the thread and the clock are taken to return
  normally. A call that raises is not entered in \<open>calls\<close>.
\<close>

subsection \<open>Exceptions\<close>

datatype error = LockException string | AttributeError | TypeError | ValueError

subsection \<open>Objects of the messaging client\<close>

datatype pyval = PyInt int | PyStr string | PyBool bool

type_synonym kwargs = "(string \<times> pyval) list"

datatype redis = Redis kwargs

record pubsub_object =
  channels :: "string set"

record pubsub_message =
  msg_type :: string
  msg_channel :: string
  msg_data :: string

record pubsub_worker_thread =
  daemon :: bool
  running :: bool

type_synonym payload = "(string \<times> string) list"

datatype call =
    Redis_init kwargs
  | Connection_pubsub
  | Connection_publish string payload
  | Connection_close
  | Pubsub_subscribe string
  | Pubsub_get_message real
  | Pubsub_unsubscribe string
  | Thread_start
  | Thread_stop
  | Time_time
  | Time_sleep real

subsection \<open>The lock object\<close>

record redis_lock =
  redis_kwargs :: kwargs
  thread :: "pubsub_worker_thread option"
  channel :: string
  timeout :: "real option"
  check_interval :: real
  fail_when_locked :: bool
  connection :: "redis option"
  pubsub :: "pubsub_object option"
  close_connection :: bool
  thread_sleep_time :: real
  unavailable_timeout :: real
  calls :: "call list"

definition DEFAULT_UNAVAILABLE_TIMEOUT :: real where
  "DEFAULT_UNAVAILABLE_TIMEOUT = 1"

definition DEFAULT_THREAD_SLEEP_TIME :: real where
  "DEFAULT_THREAD_SLEEP_TIME = 1 / 10"

definition DEFAULT_REDIS_KWARGS :: kwargs where
  "DEFAULT_REDIS_KWARGS = [(''health_check_interval'', PyInt 10)]"

subsection \<open>Calls on the client, each failing on a missing receiver\<close>

text \<open>A call that raises leaves the lock as it was.\<close>

definition connection_pubsub :: "redis_lock \<Rightarrow> error + redis_lock" where
  \<comment> \<open>\<^verbatim>\<open>self.pubsub = self.connection.pubsub()\<close>\<close>
  "connection_pubsub self =
     (case connection self of
        None \<Rightarrow> Inl AttributeError
      | Some c \<Rightarrow> Inr (self\<lparr>pubsub := Some \<lparr>channels = {}\<rparr>,
                           calls := calls self @ [Connection_pubsub]\<rparr>))"

definition connection_publish :: "redis_lock \<Rightarrow> payload \<Rightarrow> error + redis_lock" where
  \<comment> \<open>\<^verbatim>\<open>self.connection.publish(self.channel, json.dumps(payload))\<close>\<close>
  "connection_publish self p =
     (case connection self of
        None \<Rightarrow> Inl AttributeError
      | Some c \<Rightarrow> Inr (self\<lparr>calls := calls self @ [Connection_publish (channel self) p]\<rparr>))"

definition connection_close :: "redis_lock \<Rightarrow> error + redis_lock" where
  \<comment> \<open>\<^verbatim>\<open>self.connection.close()\<close>\<close>
  "connection_close self =
     (case connection self of
        None \<Rightarrow> Inl AttributeError
      | Some c \<Rightarrow> Inr (self\<lparr>calls := calls self @ [Connection_close]\<rparr>))"

definition pubsub_subscribe :: "redis_lock \<Rightarrow> error + redis_lock" where
  \<comment> \<open>\<^verbatim>\<open>self.pubsub.subscribe(self.channel)\<close>\<close>
  "pubsub_subscribe self =
     (case pubsub self of
        None \<Rightarrow> Inl AttributeError
      | Some p \<Rightarrow> Inr (self\<lparr>pubsub := Some (p\<lparr>channels := insert (channel self) (channels p)\<rparr>),
                           calls := calls self @ [Pubsub_subscribe (channel self)]\<rparr>))"

definition pubsub_get_message :: "redis_lock \<Rightarrow> error + redis_lock" where
  \<comment> \<open>\<^verbatim>\<open>self.pubsub.get_message(timeout=self.unavailable_timeout)\<close>; the message is the caller's\<close>
  "pubsub_get_message self =
     (case pubsub self of
        None \<Rightarrow> Inl AttributeError
      | Some p \<Rightarrow> Inr (self\<lparr>calls := calls self @ [Pubsub_get_message (unavailable_timeout self)]\<rparr>))"

definition pubsub_unsubscribe :: "redis_lock \<Rightarrow> error + redis_lock" where
  \<comment> \<open>\<^verbatim>\<open>self.pubsub.unsubscribe(self.channel)\<close>\<close>
  "pubsub_unsubscribe self =
     (case pubsub self of
        None \<Rightarrow> Inl AttributeError
      | Some p \<Rightarrow> Inr (self\<lparr>pubsub := Some (p\<lparr>channels := channels p - {channel self}\<rparr>),
                           calls := calls self @ [Pubsub_unsubscribe (channel self)]\<rparr>))"

definition thread_stop :: "redis_lock \<Rightarrow> error + redis_lock" where
  \<comment> \<open>\<^verbatim>\<open>self.thread.stop()\<close>\<close>
  "thread_stop self =
     (case thread self of
        None \<Rightarrow> Inl AttributeError
      | Some t \<Rightarrow> Inr (self\<lparr>thread := Some (t\<lparr>running := False\<rparr>),
                           calls := calls self @ [Thread_stop]\<rparr>))"

definition time_sleep :: "redis_lock \<Rightarrow> real \<Rightarrow> error + redis_lock" where
  \<comment> \<open>\<^verbatim>\<open>time.sleep(d)\<close>: Python refuses a negative duration\<close>
  "time_sleep self d =
     (if d < 0 then Inl ValueError
      else Inr (self\<lparr>calls := calls self @ [Time_sleep d]\<rparr>))"

subsection \<open>The worker thread\<close>

text \<open>
  \<^verbatim>\<open>class PubSubWorkerThread(client.PubSubWorkerThread): pass\<close> adds nothing to the
  class of the client library, whose constructor is
  \<^verbatim>\<open>__init__(self, pubsub, sleep_time, daemon=False, exception_handler=None)\<close>:
  \<^verbatim>\<open>sleep_time\<close> has no default, and a call that leaves it out raises \<^verbatim>\<open>TypeError\<close>.
  An argument left out is \<open>None\<close> here.
\<close>

definition PubSubWorkerThread ::
  "pubsub_object option \<Rightarrow> real option \<Rightarrow> error + pubsub_worker_thread" where
  "PubSubWorkerThread p sleep_time =
     (case sleep_time of
        None \<Rightarrow> Inl TypeError
      | Some t \<Rightarrow> Inr \<lparr>daemon = False, running = False\<rparr>)"

subsection \<open>\<^verbatim>\<open>_start_keep_alive_thread\<close> and \<^verbatim>\<open>_try_acquire\<close>\<close>

definition start_keep_alive_thread :: "redis_lock \<Rightarrow> error + redis_lock" where
  \<comment> \<open>the constructor is called as \<^verbatim>\<open>PubSubWorkerThread(self.pubsub)\<close>, with no \<^verbatim>\<open>sleep_time\<close>;
      \<^verbatim>\<open>self.thread\<close> is assigned only once it has returned\<close>
  "start_keep_alive_thread self =
     (if thread self = None
      then (case PubSubWorkerThread (pubsub self) None of
              Inl e \<Rightarrow> Inl e
            | Inr t \<Rightarrow>
                Inr (self\<lparr>thread := Some (t\<lparr>daemon := True, running := True\<rparr>),
                          calls := calls self @ [Thread_start]\<rparr>))
      else Inr self)"

definition accepted :: "pubsub_message option \<Rightarrow> bool" where
  \<comment> \<open>\<^verbatim>\<open>message is None or message['type'] == 'subscribe'\<close>\<close>
  "accepted message =
     (case message of None \<Rightarrow> True | Some m \<Rightarrow> msg_type m = ''subscribe'')"

definition try_body :: "redis_lock \<Rightarrow> pubsub_message option \<Rightarrow> int \<Rightarrow> (error + bool) \<times> redis_lock" where
  \<comment> \<open>the \<^verbatim>\<open>try\<close> block: \<open>Inr True\<close> is its \<^verbatim>\<open>return True\<close>, \<open>Inr False\<close> is falling out of it\<close>
  "try_body self message receivers =
     (case pubsub_get_message self of
        Inl e \<Rightarrow> (Inl e, self)
      | Inr s1 \<Rightarrow>
          if accepted message
          then (case connection_publish s1 [(''action'', ''acquire'')] of
                  Inl e \<Rightarrow> (Inl e, s1)
                | Inr s2 \<Rightarrow>
                    if receivers = 1
                    then (case start_keep_alive_thread s2 of
                            Inl e \<Rightarrow> (Inl e, s2)
                          | Inr s3 \<Rightarrow> (Inr True, s3))
                    else (Inr False, s2))
          else (Inr False, s1))"

definition try_acquire :: "redis_lock \<Rightarrow> pubsub_message option \<Rightarrow> int \<Rightarrow> (error + bool) \<times> redis_lock" where
  \<comment> \<open>\<open>message\<close> is what \<^verbatim>\<open>get_message\<close> hands back, \<open>receivers\<close> what \<^verbatim>\<open>publish\<close> returns\<close>
  "try_acquire self message receivers =
     (case (if pubsub self = None then connection_pubsub self else Inr self) of
        Inl e \<Rightarrow> (Inl e, self)
      | Inr s1 \<Rightarrow>
          (case pubsub_subscribe s1 of
             Inl e \<Rightarrow> (Inl e, s1)
           | Inr s2 \<Rightarrow>
               (case try_body s2 message receivers of
                  (r, s3) \<Rightarrow>
                    \<comment> \<open>\<^verbatim>\<open>finally\<close>: runs on every way out of the \<^verbatim>\<open>try\<close> block\<close>
                    (case pubsub_unsubscribe s3 of
                       Inl e \<Rightarrow> (Inl e, s3)
                     | Inr s4 \<Rightarrow> (r, s4)))))"

subsection \<open>\<^verbatim>\<open>release\<close>\<close>

definition release :: "redis_lock \<Rightarrow> (error + unit) \<times> redis_lock" where
  "release self =
     (case (if thread self \<noteq> None
            then (case thread_stop self of
                    Inl e \<Rightarrow> Inl e
                  | Inr s \<Rightarrow> Inr (s\<lparr>thread := None\<rparr>))
            else Inr self) of
        Inl e \<Rightarrow> (Inl e, self)
      | Inr s1 \<Rightarrow>
          (case (if pubsub s1 \<noteq> None
                 then (case pubsub_unsubscribe s1 of
                         Inl e \<Rightarrow> Inl e
                       | Inr s \<Rightarrow> Inr (s\<lparr>pubsub := None\<rparr>))
                 else Inr s1) of
             Inl e \<Rightarrow> (Inl e, s1)
           | Inr s2 \<Rightarrow>
               if connection s2 \<noteq> None
               then (case connection_publish s2 [(''action'', ''release'')] of
                       Inl e \<Rightarrow> (Inl e, s2)
                     | Inr s3 \<Rightarrow>
                         if close_connection s3
                         then (case connection_close s3 of
                                 Inl e \<Rightarrow> (Inl e, s3)
                               | Inr s4 \<Rightarrow> (Inr (), s4\<lparr>connection := None\<rparr>))
                         else (Inr (), s3))
               else (Inr (), s2)))"

definition del :: "redis_lock \<Rightarrow> (error + unit) \<times> redis_lock" where
  "del self = release self"

subsection \<open>\<^verbatim>\<open>acquire\<close>\<close>

text \<open>
  What the world answers during one turn of the loop of \<^verbatim>\<open>acquire\<close>: the message
  read in the attempt, the receiver count of its publish, and the clock at the timeout
  check. An answer is used only if the code asks for it.
\<close>

record world_step =
  next_message :: "pubsub_message option"
  receiver_count :: int
  clock :: real

text \<open>
  The loop \<^verbatim>\<open>while True\<close> has no bound of its own. It runs against the list of the
  world's answers, one element a turn; the result \<open>None\<close> says that the loop is still
  running when the answers given are used up.
\<close>

fun acquire_loop ::
  "redis_lock \<Rightarrow> real \<Rightarrow> real option \<Rightarrow> real \<Rightarrow> bool \<Rightarrow> world_step list
     \<Rightarrow> (error + redis_lock) option \<times> redis_lock" where
  "acquire_loop self start_time tmo interval fail [] = (None, self)"
| "acquire_loop self start_time tmo interval fail (w # ws) =
     (case try_acquire self (next_message w) (receiver_count w) of
        (Inl e, s) \<Rightarrow> (Some (Inl e), s)
      | (Inr ok, s) \<Rightarrow>
          if ok then (Some (Inr s), s)
          else if fail then (Some (Inl (LockException ''Failed to acquire lock'')), s)
          else (case tmo of
                  None \<Rightarrow>
                    (case time_sleep s interval of
                       Inl e \<Rightarrow> (Some (Inl e), s)
                     | Inr s2 \<Rightarrow> acquire_loop s2 start_time tmo interval fail ws)
                | Some t \<Rightarrow>
                    let s' = s\<lparr>calls := calls s @ [Time_time]\<rparr>
                    in if clock w - start_time > t
                       then (Some (Inl (LockException ''Timeout while acquiring lock'')), s')
                       else (case time_sleep s' interval of
                               Inl e \<Rightarrow> (Some (Inl e), s')
                             | Inr s2 \<Rightarrow> acquire_loop s2 start_time tmo interval fail ws)))"

definition acquire ::
  "redis_lock \<Rightarrow> real option \<Rightarrow> real option \<Rightarrow> bool option \<Rightarrow> real \<Rightarrow> world_step list
     \<Rightarrow> (error + redis_lock) option \<times> redis_lock" where
  \<comment> \<open>\<open>start_time\<close> is the first clock reading\<close>
  "acquire self tmo interval fail start_time ws =
     (let tmo = (case tmo of None \<Rightarrow> timeout self | Some t \<Rightarrow> Some t);
          interval = (case interval of None \<Rightarrow> check_interval self | Some i \<Rightarrow> i);
          fail = (case fail of None \<Rightarrow> fail_when_locked self | Some b \<Rightarrow> b)
      in acquire_loop (self\<lparr>calls := calls self @ [Time_time]\<rparr>)
           start_time tmo interval fail ws)"

definition enter :: "redis_lock \<Rightarrow> real \<Rightarrow> world_step list
     \<Rightarrow> (error + redis_lock) option \<times> redis_lock" where
  "enter self start_time ws = acquire self None None None start_time ws"

definition exit :: "redis_lock \<Rightarrow> error option \<Rightarrow> (error + unit) \<times> redis_lock" where
  \<comment> \<open>\<open>exc\<close> stands for \<^verbatim>\<open>exc_type, exc_val, exc_tb\<close>\<close>
  "exit self exc = release self"

subsection \<open>\<^verbatim>\<open>__init__\<close>\<close>

definition setdefault :: "kwargs \<Rightarrow> string \<Rightarrow> pyval \<Rightarrow> kwargs" where
  "setdefault d k v = (if map_of d k = None then d @ [(k, v)] else d)"

text \<open>
  \<^verbatim>\<open>utils.LockBase\<close> is not among the sources. Its constructor, which stores
  \<open>timeout\<close>, \<open>check_interval\<close> and \<open>fail_when_locked\<close>, is the parameter
  \<open>lock_base\<close>: from the three arguments to the three values stored.
\<close>

definition init ::
  "(real option \<Rightarrow> real option \<Rightarrow> bool option \<Rightarrow> real option \<times> real \<times> bool)
     \<Rightarrow> string \<Rightarrow> redis option \<Rightarrow> real option \<Rightarrow> real option \<Rightarrow> bool option
     \<Rightarrow> real \<Rightarrow> real \<Rightarrow> kwargs option \<Rightarrow> error + redis_lock" where
  "init lock_base chan conn tmo interval fail sleep_time unavailable kw =
     (let kw1 = (case kw of None \<Rightarrow> [] | Some d \<Rightarrow> d);  \<comment> \<open>\<^verbatim>\<open>redis_kwargs or dict()\<close>\<close>
          kw2 = foldl (\<lambda>d (k, v). setdefault d k v) kw1 DEFAULT_REDIS_KWARGS;
          base = lock_base tmo interval fail;
          s1 = \<lparr>redis_kwargs = kw2, thread = None, channel = chan,
                timeout = fst base, check_interval = fst (snd base),
                fail_when_locked = snd (snd base),
                connection = conn, pubsub = None, close_connection = (conn = None),
                thread_sleep_time = sleep_time, unavailable_timeout = unavailable,
                calls = []\<rparr>;
          s2 = (if connection s1 = None
                then s1\<lparr>connection := Some (Redis (redis_kwargs s1)),
                        calls := calls s1 @ [Redis_init (redis_kwargs s1)]\<rparr>
                else s1)
      in connection_pubsub s2)"

subsection \<open>Sequences of operations on one instance\<close>

datatype operation =
    Acquire "real option" "real option" "bool option" real "world_step list"
  | Try_acquire "pubsub_message option" int
  | Release

datatype outcome = Returned_self | Returned_bool bool | Returned_none | Raised error | Blocked

fun exec :: "redis_lock \<Rightarrow> operation \<Rightarrow> outcome \<times> redis_lock" where
  "exec s (Acquire tmo interval fail start_time ws) =
     (case acquire s tmo interval fail start_time ws of
        (None, s') \<Rightarrow> (Blocked, s')
      | (Some (Inl e), s') \<Rightarrow> (Raised e, s')
      | (Some (Inr h), s') \<Rightarrow> (Returned_self, s'))"
| "exec s (Try_acquire message receivers) =
     (case try_acquire s message receivers of
        (Inl e, s') \<Rightarrow> (Raised e, s')
      | (Inr b, s') \<Rightarrow> (Returned_bool b, s'))"
| "exec s Release =
     (case release s of
        (Inl e, s') \<Rightarrow> (Raised e, s')
      | (Inr u, s') \<Rightarrow> (Returned_none, s'))"

text \<open>
  The transitions made by a sequence of calls on one instance: the lock before, the
  call, its outcome, the lock after. A call that does not come back ends the sequence.
\<close>

fun steps :: "redis_lock \<Rightarrow> operation list
     \<Rightarrow> (redis_lock \<times> operation \<times> outcome \<times> redis_lock) list" where
  "steps s [] = []"
| "steps s (x # xs) =
     (case exec s x of
        (out, s') \<Rightarrow> (s, x, out, s') # (if out = Blocked then [] else steps s' xs))"

subsection \<open>The state machine of the specification\<close>




subsection \<open>Two instances to run the model on\<close>

definition example_lock_base ::
  \<comment> \<open>stands for the constructor of \<^verbatim>\<open>LockBase\<close> in the runs below\<close>
  "real option \<Rightarrow> real option \<Rightarrow> bool option \<Rightarrow> real option \<times> real \<times> bool" where
  "example_lock_base tmo interval fail =
     (tmo, (case interval of None \<Rightarrow> 1 / 4 | Some i \<Rightarrow> i),
      (case fail of None \<Rightarrow> False | Some b \<Rightarrow> b))"

definition borrowed_lock :: redis_lock where
  \<comment> \<open>built on a connection that the caller supplies\<close>
  "borrowed_lock =
     \<lparr>redis_kwargs = [(''health_check_interval'', PyInt 10)], thread = None,
      channel = ''jobs:42'', timeout = Some 5, check_interval = 1 / 4,
      fail_when_locked = False, connection = Some (Redis []),
      pubsub = Some \<lparr>channels = {}\<rparr>, close_connection = False,
      thread_sleep_time = 1 / 10, unavailable_timeout = 1,
      calls = [Connection_pubsub]\<rparr>"

definition owned_lock :: redis_lock where
  \<comment> \<open>built without a connection: the lock makes its own\<close>
  "owned_lock =
     \<lparr>redis_kwargs = [(''health_check_interval'', PyInt 10)], thread = None,
      channel = ''jobs:42'', timeout = Some 5, check_interval = 1 / 4,
      fail_when_locked = False,
      connection = Some (Redis [(''health_check_interval'', PyInt 10)]),
      pubsub = Some \<lparr>channels = {}\<rparr>, close_connection = True,
      thread_sleep_time = 1 / 10, unavailable_timeout = 1,
      calls = [Redis_init [(''health_check_interval'', PyInt 10)], Connection_pubsub]\<rparr>"

definition worker_set_lock :: redis_lock where
  \<comment> \<open>\<open>borrowed_lock\<close> with its \<^verbatim>\<open>thread\<close> attribute set from outside; no method sets it\<close>
  "worker_set_lock = borrowed_lock\<lparr>thread := Some \<lparr>daemon = True, running = True\<rparr>\<rparr>"

definition data_message :: pubsub_message where
  "data_message = \<lparr>msg_type = ''message'', msg_channel = ''jobs:42'', msg_data = ''acquire''\<rparr>"

definition subscribe_message :: pubsub_message where
  "subscribe_message = \<lparr>msg_type = ''subscribe'', msg_channel = ''jobs:42'', msg_data = ''1''\<rparr>"

subsection \<open>Kinds of calls\<close>

fun attempt_call :: "call \<Rightarrow> bool" where
  \<comment> \<open>the calls that one attempt can make\<close>
  "attempt_call Connection_pubsub = True"
| "attempt_call (Pubsub_subscribe c) = True"
| "attempt_call (Pubsub_get_message t) = True"
| "attempt_call (Connection_publish c p) = True"
| "attempt_call Thread_start = True"
| "attempt_call (Pubsub_unsubscribe c) = True"
| "attempt_call x = False"

fun clock_call :: "call \<Rightarrow> bool" where
  \<comment> \<open>reading the clock and sleeping\<close>
  "clock_call Time_time = True"
| "clock_call (Time_sleep d) = True"
| "clock_call x = False"

section \<open>Properties\<close>

lemmas client_defs = connection_pubsub_def connection_publish_def connection_close_def
  pubsub_subscribe_def pubsub_get_message_def pubsub_unsubscribe_def thread_stop_def

subsection \<open>The two instances are what the constructor builds\<close>

lemma init_borrowed:
  "init example_lock_base ''jobs:42'' (Some (Redis [])) (Some 5) None None
     DEFAULT_THREAD_SLEEP_TIME DEFAULT_UNAVAILABLE_TIMEOUT None = Inr borrowed_lock"
  by (simp add: init_def Let_def example_lock_base_def borrowed_lock_def connection_pubsub_def
      setdefault_def DEFAULT_REDIS_KWARGS_def DEFAULT_THREAD_SLEEP_TIME_def
      DEFAULT_UNAVAILABLE_TIMEOUT_def)

lemma init_owned:
  "init example_lock_base ''jobs:42'' None (Some 5) None None
     DEFAULT_THREAD_SLEEP_TIME DEFAULT_UNAVAILABLE_TIMEOUT None = Inr owned_lock"
  by (simp add: init_def Let_def example_lock_base_def owned_lock_def connection_pubsub_def
      setdefault_def DEFAULT_REDIS_KWARGS_def DEFAULT_THREAD_SLEEP_TIME_def
      DEFAULT_UNAVAILABLE_TIMEOUT_def)

subsection \<open>One attempt\<close>

lemma start_keep_alive_thread_result:
  "start_keep_alive_thread s = (if thread s = None then Inl TypeError else Inr s)"
  by (simp add: start_keep_alive_thread_def PubSubWorkerThread_def)

lemma try_acquire_result:
  "fst (try_acquire s message receivers) =
     (if connection s = None
      then (if pubsub s \<noteq> None \<and> \<not> accepted message then Inr False else Inl AttributeError)
      else if accepted message \<and> receivers = 1
           then (if thread s = None then Inl TypeError else Inr True)
           else Inr False)"
  by (simp add: try_acquire_def try_body_def client_defs start_keep_alive_thread_result
      split: option.splits sum.splits prod.splits)

lemma try_acquire_thread:
  "thread (snd (try_acquire s message receivers)) = thread s"
  by (simp add: try_acquire_def try_body_def client_defs start_keep_alive_thread_result
      split: option.splits sum.splits prod.splits)

lemma try_acquire_fields:
  "connection (snd (try_acquire s message receivers)) = connection s"
  "close_connection (snd (try_acquire s message receivers)) = close_connection s"
  "channel (snd (try_acquire s message receivers)) = channel s"
  by (simp_all add: try_acquire_def try_body_def client_defs start_keep_alive_thread_result
      split: option.splits sum.splits prod.splits)

text \<open>
  Whatever way an attempt that has subscribed comes out, by \<^verbatim>\<open>return True\<close>, by
  \<^verbatim>\<open>return False\<close> or by an exception of the \<^verbatim>\<open>try\<close> block, its \<^verbatim>\<open>finally\<close> clause
  has unsubscribed: the channel is not among the subscriptions afterwards.
\<close>

lemma try_acquire_unsubscribed:
  "pubsub s \<noteq> None \<or> connection s \<noteq> None \<Longrightarrow>
     (\<exists>p. pubsub (snd (try_acquire s message receivers)) = Some p \<and> channel s \<notin> channels p)
     \<and> last (calls (snd (try_acquire s message receivers))) = Pubsub_unsubscribe (channel s)"
  by (auto simp add: try_acquire_def try_body_def client_defs start_keep_alive_thread_result
      split: option.splits sum.splits prod.splits)

text \<open>
  C1. On the failing input: a lock as the constructor builds it, and an attempt whose
  message is absent, or is the subscription confirmation, and whose publish returns the
  receiver count 1. The acceptance test passes and the count is 1, yet the attempt does
  not return \<^verbatim>\<open>True\<close>: the constructor of the worker thread, called without its
  \<^verbatim>\<open>sleep_time\<close>, raises \<^verbatim>\<open>TypeError\<close>. Any other message and any other count give
  \<^verbatim>\<open>False\<close>, as the claim says.
\<close>

theorem try_acquire_accepted_raises:
  "fst (try_acquire borrowed_lock None 1) = Inl TypeError
   \<and> fst (try_acquire borrowed_lock (Some subscribe_message) 1) = Inl TypeError
   \<and> fst (try_acquire owned_lock None 1) = Inl TypeError
   \<and> fst (try_acquire borrowed_lock (Some data_message) 1) = Inr False
   \<and> fst (try_acquire borrowed_lock None 2) = Inr False
   \<and> fst (try_acquire borrowed_lock None 0) = Inr False"
  by (simp add: try_acquire_result accepted_def borrowed_lock_def owned_lock_def
      subscribe_message_def data_message_def)

text \<open>
  C2. On the failing input: a lock built on a supplied connection, no message within
  the timeout, receiver count 1. The attempt subscribes, reads, publishes, and then
  raises \<^verbatim>\<open>TypeError\<close> from the constructor of the worker thread: no worker is
  started, the \<^verbatim>\<open>finally\<close> clause unsubscribes, the channel is no longer subscribed.
  And on a lock whose \<^verbatim>\<open>thread\<close> attribute is already set the attempt does return
  \<^verbatim>\<open>True\<close>, and the \<^verbatim>\<open>finally\<close> clause unsubscribes all the same.
\<close>

theorem try_acquire_success_path:
  "try_acquire borrowed_lock None 1 =
     (Inl TypeError,
      borrowed_lock\<lparr>pubsub := Some \<lparr>channels = {}\<rparr>,
        calls := [Connection_pubsub, Pubsub_subscribe ''jobs:42'', Pubsub_get_message 1,
                  Connection_publish ''jobs:42'' [(''action'', ''acquire'')],
                  Pubsub_unsubscribe ''jobs:42'']\<rparr>)
   \<and> thread (snd (try_acquire borrowed_lock None 1)) = None
   \<and> try_acquire worker_set_lock None 1 =
     (Inr True,
      worker_set_lock\<lparr>pubsub := Some \<lparr>channels = {}\<rparr>,
        calls := [Connection_pubsub, Pubsub_subscribe ''jobs:42'', Pubsub_get_message 1,
                  Connection_publish ''jobs:42'' [(''action'', ''acquire'')],
                  Pubsub_unsubscribe ''jobs:42'']\<rparr>)"
  by (simp add: try_acquire_def try_body_def client_defs start_keep_alive_thread_result
      accepted_def worker_set_lock_def borrowed_lock_def)

subsection \<open>Release\<close>

lemma release_result:
  "release s =
     (Inr (),
      s\<lparr>thread := None, pubsub := None,
        connection := (if close_connection s then None else connection s),
        calls := calls s
          @ (if thread s \<noteq> None then [Thread_stop] else [])
          @ (if pubsub s \<noteq> None then [Pubsub_unsubscribe (channel s)] else [])
          @ (if connection s \<noteq> None
             then Connection_publish (channel s) [(''action'', ''release'')]
                  # (if close_connection s then [Connection_close] else [])
             else [])\<rparr>)"
  by (cases "thread s"; cases "pubsub s"; cases "connection s"; cases "close_connection s")
     (simp_all add: release_def client_defs)

text \<open>
  C6. From every state \<^verbatim>\<open>release\<close> returns normally, and the calls it makes are, in
  this order: the stop of the worker if there is one, the unsubscribe if there is a
  subscription object, the publish of the release notification if there is a
  connection and, after it, the close if the lock owns that connection. The worker
  and the subscription object are cleared, the connection is cleared if owned.
\<close>

theorem release_sequence:
  "fst (release s) = Inr ()
   \<and> calls (snd (release s)) =
       calls s
       @ (if thread s \<noteq> None then [Thread_stop] else [])
       @ (if pubsub s \<noteq> None then [Pubsub_unsubscribe (channel s)] else [])
       @ (if connection s \<noteq> None
          then [Connection_publish (channel s) [(''action'', ''release'')]] else [])
       @ (if connection s \<noteq> None \<and> close_connection s then [Connection_close] else [])
   \<and> thread (snd (release s)) = None
   \<and> pubsub (snd (release s)) = None
   \<and> connection (snd (release s)) = (if close_connection s then None else connection s)"
  by (simp add: release_result)

theorem release_sequence_witness:
  "thread owned_lock = None \<and> pubsub owned_lock \<noteq> None
   \<and> connection owned_lock \<noteq> None \<and> close_connection owned_lock
   \<and> fst (release owned_lock) = Inr ()
   \<and> calls (snd (release owned_lock)) =
       calls owned_lock
       @ [Pubsub_unsubscribe ''jobs:42'',
          Connection_publish ''jobs:42'' [(''action'', ''release'')], Connection_close]
   \<and> pubsub (snd (release owned_lock)) = None
   \<and> connection (snd (release owned_lock)) = None"
proof -
  have pre: "thread owned_lock = None \<and> pubsub owned_lock \<noteq> None
      \<and> connection owned_lock \<noteq> None \<and> close_connection owned_lock
      \<and> channel owned_lock = ''jobs:42''"
    by (simp add: owned_lock_def)
  show ?thesis
    using pre release_sequence [of owned_lock]
    by simp
qed

text \<open>
  C7 as stated fails: on a lock built on a supplied connection the connection stays,
  and the second of two calls of \<^verbatim>\<open>release\<close> publishes the release notification
  once more.
\<close>

theorem second_release_publishes_counterexample:
  "snd (release (snd (release borrowed_lock))) \<noteq> snd (release borrowed_lock)
   \<and> calls (snd (release (snd (release borrowed_lock)))) =
       calls (snd (release borrowed_lock))
       @ [Connection_publish ''jobs:42'' [(''action'', ''release'')]]"
proof -
  have c: "calls (snd (release (snd (release borrowed_lock)))) =
       calls (snd (release borrowed_lock))
       @ [Connection_publish ''jobs:42'' [(''action'', ''release'')]]"
    by (simp add: release_result borrowed_lock_def)
  then have "calls (snd (release (snd (release borrowed_lock))))
       \<noteq> calls (snd (release borrowed_lock))"
    by simp
  then have "snd (release (snd (release borrowed_lock))) \<noteq> snd (release borrowed_lock)"
    by metis
  with c show ?thesis by simp
qed

text \<open>
  C7, amended. The second of two calls of \<^verbatim>\<open>release\<close> in a row returns normally,
  stops no worker, unsubscribes nothing, closes nothing and changes no attribute of
  the lock. It publishes the release notification once more exactly when the
  connection is still there after the first call, that is when there was a connection
  that the lock does not own; otherwise it makes no call at all.
\<close>

theorem second_release:
  "release (snd (release s)) =
     (Inr (),
      (snd (release s))\<lparr>calls := calls (snd (release s))
         @ (if connection s \<noteq> None \<and> \<not> close_connection s
            then [Connection_publish (channel s) [(''action'', ''release'')]] else [])\<rparr>)"
  by (simp add: release_result)

theorem second_release_witness:
  "connection owned_lock \<noteq> None \<and> close_connection owned_lock
   \<and> release (snd (release owned_lock)) = (Inr (), snd (release owned_lock))
   \<and> connection borrowed_lock \<noteq> None \<and> \<not> close_connection borrowed_lock
   \<and> release (snd (release borrowed_lock)) =
       (Inr (), (snd (release borrowed_lock))\<lparr>calls := calls (snd (release borrowed_lock))
          @ [Connection_publish ''jobs:42'' [(''action'', ''release'')]]\<rparr>)"
proof -
  have o: "connection owned_lock \<noteq> None \<and> close_connection owned_lock"
    by (simp add: owned_lock_def)
  have b: "connection borrowed_lock \<noteq> None \<and> \<not> close_connection borrowed_lock
      \<and> channel borrowed_lock = ''jobs:42''"
    by (simp add: borrowed_lock_def)
  show ?thesis
    using o b second_release [of owned_lock] second_release [of borrowed_lock]
    by simp
qed

subsection \<open>The loop of \<^verbatim>\<open>acquire\<close>\<close>

text \<open>One turn of the loop, given what its attempt comes to.\<close>

lemma acquire_loop_Cons:
  assumes "try_acquire s (next_message w) (receiver_count w) = (r1, s1)"
  shows "acquire_loop s start_time tmo interval fail (w # ws) =
     (case r1 of
        Inl e \<Rightarrow> (Some (Inl e), s1)
      | Inr ok \<Rightarrow>
          if ok then (Some (Inr s1), s1)
          else if fail then (Some (Inl (LockException ''Failed to acquire lock'')), s1)
          else if tmo \<noteq> None \<and> clock w - start_time > the tmo
          then (Some (Inl (LockException ''Timeout while acquiring lock'')),
                s1\<lparr>calls := calls s1 @ [Time_time]\<rparr>)
          else if interval < 0
          then (Some (Inl ValueError),
                s1\<lparr>calls := calls s1 @ (if tmo \<noteq> None then [Time_time] else [])\<rparr>)
          else acquire_loop
                 (s1\<lparr>calls := calls s1 @ (if tmo \<noteq> None then [Time_time] else [])
                                        @ [Time_sleep interval]\<rparr>)
                 start_time tmo interval fail ws)"
  using assms
  by (cases r1; cases tmo) (simp_all add: Let_def time_sleep_def)

declare acquire_loop.simps(2) [simp del]

lemma try_acquire_calls:
  "\<exists>new. calls (snd (try_acquire s message receivers)) = calls s @ new
         \<and> list_all attempt_call new"
  by (simp add: try_acquire_def try_body_def client_defs start_keep_alive_thread_result
      split: option.splits sum.splits prod.splits)

lemma try_acquire_clock_calls:
  "filter clock_call (calls (snd (try_acquire s message receivers))) = filter clock_call (calls s)"
proof -
  obtain new where n: "calls (snd (try_acquire s message receivers)) = calls s @ new"
    and a: "list_all attempt_call new"
    using try_acquire_calls by blast
  have "filter clock_call new = []"
    using a by (induction new) (auto elim: attempt_call.elims)
  with n show ?thesis by simp
qed

text \<open>
  C4. With \<^verbatim>\<open>fail_when_locked\<close> in force (passed as true, or left \<^verbatim>\<open>None\<close> on a lock
  configured with it) and a first attempt that returns \<^verbatim>\<open>False\<close>, \<^verbatim>\<open>acquire\<close> raises
  \<^verbatim>\<open>LockException\<close> there: the lock is left as that one attempt left it, and since
  the start the clock has been read once, for the start time, and nothing has slept.
\<close>

theorem acquire_fail_when_locked:
  assumes "(case fail of None \<Rightarrow> fail_when_locked s | Some b \<Rightarrow> b)"
    and "try_acquire (s\<lparr>calls := calls s @ [Time_time]\<rparr>) (next_message w) (receiver_count w)
           = (Inr False, s1)"
  shows "acquire s tmo interval fail start_time (w # ws)
           = (Some (Inl (LockException ''Failed to acquire lock'')), s1)
         \<and> filter clock_call (calls s1) = filter clock_call (calls s) @ [Time_time]"
proof -
  have "filter clock_call (calls s1) = filter clock_call (calls (s\<lparr>calls := calls s @ [Time_time]\<rparr>))"
    using try_acquire_clock_calls [of "s\<lparr>calls := calls s @ [Time_time]\<rparr>"
        "next_message w" "receiver_count w"] assms(2)
    by simp
  then have c: "filter clock_call (calls s1) = filter clock_call (calls s) @ [Time_time]"
    by simp
  have "acquire_loop (s\<lparr>calls := calls s @ [Time_time]\<rparr>) start_time T I True (w # ws)
      = (Some (Inl (LockException ''Failed to acquire lock'')), s1)" for T I
    by (simp add: acquire_loop_Cons [OF assms(2)])
  with assms(1) c show ?thesis
    by (simp add: acquire_def Let_def)
qed

theorem acquire_fail_when_locked_witness:
  "fst (try_acquire (borrowed_lock\<lparr>calls := calls borrowed_lock @ [Time_time]\<rparr>) None 2) = Inr False
   \<and> fst (acquire borrowed_lock None None (Some True) 100
        [\<lparr>next_message = None, receiver_count = 2, clock = 200\<rparr>])
       = Some (Inl (LockException ''Failed to acquire lock''))
   \<and> filter clock_call (calls (snd (acquire borrowed_lock None None (Some True) 100
        [\<lparr>next_message = None, receiver_count = 2, clock = 200\<rparr>])))
       = [Time_time]"
proof -
  let ?s = "borrowed_lock\<lparr>calls := calls borrowed_lock @ [Time_time]\<rparr>"
  let ?w = "\<lparr>next_message = None, receiver_count = 2, clock = 200\<rparr>"
  have f: "fst (try_acquire ?s None 2) = Inr False"
    by (simp add: try_acquire_result accepted_def borrowed_lock_def)
  then have t: "try_acquire ?s (next_message ?w) (receiver_count ?w)
      = (Inr False, snd (try_acquire ?s None 2))"
    by (cases "try_acquire ?s None 2") simp
  have h: "(case Some True of None \<Rightarrow> fail_when_locked borrowed_lock | Some b \<Rightarrow> b)"
    by simp
  have c: "filter clock_call (calls borrowed_lock) = []"
    by (simp add: borrowed_lock_def)
  show ?thesis
    using f c acquire_fail_when_locked [OF h t, of None None 100 "[]"]
    by simp
qed

text \<open>The ways one turn of the loop can go.\<close>

lemma acquire_loop_turn_cases:
  assumes "acquire_loop s start_time tmo interval fail (w # ws) = (r, s')"
    and "try_acquire s (next_message w) (receiver_count w) = (r1, s1)"
  shows "(s' = s1 \<and> (\<exists>e. r1 = Inl e \<and> r = Some (Inl e)))
     \<or> (s' = s1 \<and> r1 = Inr True \<and> r = Some (Inr s1))
     \<or> (s' = s1 \<and> r1 = Inr False \<and> (\<exists>e. r = Some (Inl e)))
     \<or> (s' = s1\<lparr>calls := calls s1 @ [Time_time]\<rparr> \<and> r1 = Inr False \<and> (\<exists>e. r = Some (Inl e)))
     \<or> (\<exists>extra. r1 = Inr False
           \<and> (extra = [Time_sleep interval] \<or> extra = [Time_time, Time_sleep interval])
           \<and> acquire_loop (s1\<lparr>calls := calls s1 @ extra\<rparr>) start_time tmo interval fail ws
               = (r, s'))"
proof -
  note u = acquire_loop_Cons [OF assms(2), of start_time tmo interval fail ws]
  show ?thesis
  proof (cases r1)
    case (Inl e)
    with assms(1) u show ?thesis by simp
  next
    case (Inr ok)
    show ?thesis
    proof (cases "ok \<or> fail")
      case True
      with assms(1) u Inr show ?thesis by (cases ok) auto
    next
      case False
      show ?thesis
      proof (cases "tmo \<noteq> None \<and> clock w - start_time > the tmo")
        case True
        with assms(1) u Inr False show ?thesis by auto
      next
        case no_timeout: False
        show ?thesis
        proof (cases "interval < 0")
          case True
          with assms(1) u Inr False no_timeout show ?thesis
            by (cases tmo) auto
        next
          case sleeps: False
          let ?extra = "(if tmo \<noteq> None then [Time_time] else []) @ [Time_sleep interval]"
          from assms(1) u Inr False no_timeout sleeps
          have "acquire_loop (s1\<lparr>calls := calls s1 @ ?extra\<rparr>) start_time tmo interval fail ws
              = (r, s')"
            by (cases tmo) auto
          moreover have "?extra = [Time_sleep interval] \<or> ?extra = [Time_time, Time_sleep interval]"
            by simp
          ultimately show ?thesis
            using Inr False by blast
        qed
      qed
    qed
  qed
qed

lemma acquire_loop_calls:
  "acquire_loop s start_time tmo interval fail ws = (r, s') \<Longrightarrow>
     \<exists>new. calls s' = calls s @ new
       \<and> list_all (\<lambda>c. attempt_call c \<or> c = Time_time \<or> c = Time_sleep interval) new"
proof (induction ws arbitrary: s)
  case Nil
  then show ?case by simp
next
  case (Cons w ws)
  obtain r1 s1 where t: "try_acquire s (next_message w) (receiver_count w) = (r1, s1)"
    by (cases "try_acquire s (next_message w) (receiver_count w)")
  obtain n1 where n1: "calls s1 = calls s @ n1" and a1: "list_all attempt_call n1"
    using try_acquire_calls [of s "next_message w" "receiver_count w"] t by auto
  let ?P = "\<lambda>c. attempt_call c \<or> c = Time_time \<or> c = Time_sleep interval"
  have p1: "list_all ?P n1"
    using a1 by (simp add: list_all_iff)
  from acquire_loop_turn_cases [OF Cons.prems t]
  consider (stop) "s' = s1"
    | (timeout) "s' = s1\<lparr>calls := calls s1 @ [Time_time]\<rparr>"
    | (again) extra where
        "extra = [Time_sleep interval] \<or> extra = [Time_time, Time_sleep interval]"
        "acquire_loop (s1\<lparr>calls := calls s1 @ extra\<rparr>) start_time tmo interval fail ws = (r, s')"
    by auto
  then show ?case
  proof cases
    case stop
    with n1 p1 show ?thesis by auto
  next
    case timeout
    with n1 have "calls s' = calls s @ (n1 @ [Time_time])" by simp
    moreover from p1 have "list_all ?P (n1 @ [Time_time])" by simp
    ultimately show ?thesis by blast
  next
    case again
    from Cons.IH [OF again(2)] obtain n2 where n2: "calls s' = calls s1 @ extra @ n2"
      and p2: "list_all ?P n2"
      by auto
    from again(1) have pe: "list_all ?P extra" by auto
    from n1 n2 have "calls s' = calls s @ (n1 @ extra @ n2)" by simp
    moreover from p1 pe p2 have "list_all ?P (n1 @ extra @ n2)" by simp
    ultimately show ?thesis by blast
  qed
qed




subsection \<open>What the operations leave alone\<close>

lemma try_acquire_config:
  "timeout (snd (try_acquire s message receivers)) = timeout s"
  "check_interval (snd (try_acquire s message receivers)) = check_interval s"
  "fail_when_locked (snd (try_acquire s message receivers)) = fail_when_locked s"
  by (simp_all add: try_acquire_def try_body_def client_defs start_keep_alive_thread_result
      split: option.splits sum.splits prod.splits)

lemma acquire_loop_fields:
  "acquire_loop s start_time tmo interval fail ws = (r, s') \<Longrightarrow>
     connection s' = connection s \<and> close_connection s' = close_connection s
     \<and> channel s' = channel s \<and> timeout s' = timeout s
     \<and> check_interval s' = check_interval s \<and> fail_when_locked s' = fail_when_locked s
     \<and> thread s' = thread s
     \<and> (\<forall>h. r = Some (Inr h) \<longrightarrow> h = s' \<and> thread s \<noteq> None)"
proof (induction ws arbitrary: s)
  case Nil
  then show ?case by simp
next
  case (Cons w ws)
  obtain r1 s1 where t: "try_acquire s (next_message w) (receiver_count w) = (r1, s1)"
    by (cases "try_acquire s (next_message w) (receiver_count w)")
  have s1: "connection s1 = connection s \<and> close_connection s1 = close_connection s
     \<and> channel s1 = channel s \<and> timeout s1 = timeout s
     \<and> check_interval s1 = check_interval s \<and> fail_when_locked s1 = fail_when_locked s
     \<and> thread s1 = thread s"
    using try_acquire_fields [of s "next_message w" "receiver_count w"]
      try_acquire_config [of s "next_message w" "receiver_count w"]
      try_acquire_thread [of s "next_message w" "receiver_count w"] t
    by simp
  have ok: "r1 = Inr True \<longrightarrow> thread s \<noteq> None"
    using try_acquire_result [of s "next_message w" "receiver_count w"] t
    by (auto split: if_splits)
  from acquire_loop_turn_cases [OF Cons.prems t]
  consider (stop) "s' = s1" "\<forall>h. r = Some (Inr h) \<longrightarrow> h = s' \<and> r1 = Inr True"
    | (timeout) "s' = s1\<lparr>calls := calls s1 @ [Time_time]\<rparr>" "\<exists>e. r = Some (Inl e)"
    | (again) extra where
        "acquire_loop (s1\<lparr>calls := calls s1 @ extra\<rparr>) start_time tmo interval fail ws = (r, s')"
    by auto
  then show ?case
  proof cases
    case stop
    with s1 ok show ?thesis by simp
  next
    case timeout
    with s1 show ?thesis by auto
  next
    case again
    from Cons.IH [OF again] s1 show ?thesis by simp
  qed
qed

lemma acquire_fields:
  assumes "acquire s tmo interval fail start_time ws = (r, s')"
  shows "connection s' = connection s \<and> close_connection s' = close_connection s
     \<and> channel s' = channel s \<and> timeout s' = timeout s
     \<and> check_interval s' = check_interval s \<and> fail_when_locked s' = fail_when_locked s
     \<and> thread s' = thread s
     \<and> (\<forall>h. r = Some (Inr h) \<longrightarrow> h = s' \<and> thread s \<noteq> None)"
  using acquire_loop_fields [OF assms [unfolded acquire_def Let_def]] by simp

lemma exec_config:
  assumes "exec s x = (out, s')"
  shows "timeout s' = timeout s \<and> check_interval s' = check_interval s
     \<and> fail_when_locked s' = fail_when_locked s \<and> close_connection s' = close_connection s"
proof (cases x)
  case (Acquire tmo interval fail start_time ws)
  obtain r s1 where a: "acquire s tmo interval fail start_time ws = (r, s1)"
    by (cases "acquire s tmo interval fail start_time ws")
  from acquire_fields [OF a] a assms Acquire show ?thesis
    by (auto split: option.splits sum.splits)
next
  case (Try_acquire message receivers)
  with assms try_acquire_fields [of s message receivers] try_acquire_config [of s message receivers]
  show ?thesis
    by (auto split: prod.splits sum.splits)
next
  case Release
  with assms show ?thesis
    by (auto simp: release_result)
qed

lemma init_result:
  assumes "init lock_base chan conn tmo interval fail sleep_time unavailable kw = Inr s0"
  shows "timeout s0 = fst (lock_base tmo interval fail)"
    and "check_interval s0 = fst (snd (lock_base tmo interval fail))"
    and "fail_when_locked s0 = snd (snd (lock_base tmo interval fail))"
    and "close_connection s0 = (conn = None)"
    and "connection s0 \<noteq> None"
    and "Connection_close \<notin> set (calls s0)"
    and "thread s0 = None"
    and "channel s0 = chan"
  using assms
  by (auto simp: init_def Let_def connection_pubsub_def split: option.splits if_splits)

subsection \<open>The state machine\<close>





subsection \<open>The context manager\<close>

text \<open>
  C9. On the failing input: a lock built on a supplied connection and used as a
  context manager on a channel that nobody else holds (no message, receiver count 1).
  \<^verbatim>\<open>__enter__\<close>, which is \<^verbatim>\<open>acquire()\<close> with the values of the constructor, does not
  return the lock: its first attempt raises \<^verbatim>\<open>TypeError\<close> from the constructor of the
  worker thread, and the lock is left without worker and without subscription.
\<close>

theorem enter_raises:
  "enter borrowed_lock 100 [\<lparr>next_message = None, receiver_count = 1, clock = 100\<rparr>] =
     (Some (Inl TypeError),
      borrowed_lock\<lparr>pubsub := Some \<lparr>channels = {}\<rparr>,
        calls := [Connection_pubsub, Time_time, Pubsub_subscribe ''jobs:42'',
                  Pubsub_get_message 1,
                  Connection_publish ''jobs:42'' [(''action'', ''acquire'')],
                  Pubsub_unsubscribe ''jobs:42'']\<rparr>)
   \<and> thread (snd (enter borrowed_lock 100
        [\<lparr>next_message = None, receiver_count = 1, clock = 100\<rparr>])) = None"
proof -
  let ?w = "\<lparr>next_message = None, receiver_count = 1::int, clock = 100::real\<rparr>"
  let ?s = "borrowed_lock\<lparr>calls := calls borrowed_lock @ [Time_time]\<rparr>"
  let ?s' = "borrowed_lock\<lparr>pubsub := Some \<lparr>channels = {}\<rparr>,
        calls := [Connection_pubsub, Time_time, Pubsub_subscribe ''jobs:42'',
                  Pubsub_get_message 1,
                  Connection_publish ''jobs:42'' [(''action'', ''acquire'')],
                  Pubsub_unsubscribe ''jobs:42'']\<rparr>"
  have t: "try_acquire ?s (next_message ?w) (receiver_count ?w) = (Inl TypeError, ?s')"
    by (simp add: try_acquire_def try_body_def client_defs start_keep_alive_thread_result
        accepted_def borrowed_lock_def)
  have "enter borrowed_lock 100 [?w] = (Some (Inl TypeError), ?s')"
    using acquire_loop_Cons [OF t] by (simp add: enter_def acquire_def)
  moreover have "thread ?s' = None"
    by (simp add: borrowed_lock_def)
  ultimately show ?thesis by simp
qed

subsection \<open>Who closes the connection\<close>

lemma exec_calls:
  assumes "exec s x = (out, s')"
  shows "\<exists>new. calls s' = calls s @ new
     \<and> (Connection_close \<in> set new \<longleftrightarrow> x = Release \<and> close_connection s \<and> connection s \<noteq> None)"
proof (cases x)
  case (Acquire tmo interval fail start_time ws)
  obtain r s1 where a: "acquire s tmo interval fail start_time ws = (r, s1)"
    by (cases "acquire s tmo interval fail start_time ws")
  from acquire_loop_calls [OF a [unfolded acquire_def Let_def]]
  obtain new where n: "calls s1 = calls s @ Time_time # new"
    and p: "list_all (\<lambda>c. attempt_call c \<or> c = Time_time
              \<or> c = Time_sleep (case interval of None \<Rightarrow> check_interval s | Some i \<Rightarrow> i)) new"
    by auto
  from p have "Connection_close \<notin> set new"
    by (auto simp: list_all_iff)
  with n a assms Acquire show ?thesis
    by (auto split: option.splits sum.splits)
next
  case (Try_acquire message receivers)
  obtain new where n: "calls (snd (try_acquire s message receivers)) = calls s @ new"
    and p: "list_all attempt_call new"
    using try_acquire_calls by blast
  from p have "Connection_close \<notin> set new"
    by (auto simp: list_all_iff)
  with n assms Try_acquire show ?thesis
    by (auto split: prod.splits sum.splits)
next
  case Release
  with assms show ?thesis
    by (auto simp: release_result)
qed

lemma steps_close:
  "\<forall>(s, x, out, s') \<in> set (steps s0 xs).
      (Connection_close \<in> set (drop (length (calls s)) (calls s'))
         \<longleftrightarrow> x = Release \<and> close_connection s0 \<and> connection s \<noteq> None)
      \<and> (\<not> close_connection s0 \<and> Connection_close \<notin> set (calls s0)
            \<longrightarrow> Connection_close \<notin> set (calls s'))"
proof (induction xs arbitrary: s0)
  case Nil
  show ?case by simp
next
  case (Cons x xs)
  obtain out s1 where e: "exec s0 x = (out, s1)"
    by (cases "exec s0 x")
  from exec_calls [OF e] obtain new where n: "calls s1 = calls s0 @ new"
    and c: "Connection_close \<in> set new \<longleftrightarrow> x = Release \<and> close_connection s0 \<and> connection s0 \<noteq> None"
    by blast
  from exec_config [OF e] have k: "close_connection s1 = close_connection s0"
    by simp
  have here: "(Connection_close \<in> set (drop (length (calls s0)) (calls s1))
         \<longleftrightarrow> x = Release \<and> close_connection s0 \<and> connection s0 \<noteq> None)
      \<and> (\<not> close_connection s0 \<and> Connection_close \<notin> set (calls s0)
            \<longrightarrow> Connection_close \<notin> set (calls s1))"
    using n c by auto
  have later: "\<forall>(s, x, out, s') \<in> set (steps s1 xs).
      (Connection_close \<in> set (drop (length (calls s)) (calls s'))
         \<longleftrightarrow> x = Release \<and> close_connection s0 \<and> connection s \<noteq> None)
      \<and> (\<not> close_connection s0 \<and> Connection_close \<notin> set (calls s0)
            \<longrightarrow> Connection_close \<notin> set (calls s'))"
    using Cons.IH [of s1] k here by fastforce
  from here later e show ?case
    by simp
qed

text \<open>
  C8. For a lock as the constructor builds it, and every sequence of operations on
  it: a step closes the connection exactly when it is a \<^verbatim>\<open>release\<close>, the lock was
  built without a connection (it made its own) and the connection is still there. So
  the \<^verbatim>\<open>release\<close> of a fresh lock closes iff the lock made the connection, and a
  connection that the caller supplied is never closed.
\<close>

theorem connection_closed_iff_owned:
  assumes "init lock_base chan conn tmo interval fail sleep_time unavailable kw = Inr s0"
  shows "close_connection s0 = (conn = None)
     \<and> (Connection_close \<in> set (calls (snd (release s0))) \<longleftrightarrow> conn = None)
     \<and> (\<forall>(s, x, out, s') \<in> set (steps s0 xs).
           (Connection_close \<in> set (drop (length (calls s)) (calls s'))
              \<longleftrightarrow> x = Release \<and> conn = None \<and> connection s \<noteq> None)
           \<and> (conn \<noteq> None \<longrightarrow> Connection_close \<notin> set (calls s')))"
proof -
  note i = init_result [OF assms]
  have 1: "close_connection s0 = (conn = None)"
    by (rule i(4))
  have 2: "Connection_close \<in> set (calls (snd (release s0))) \<longleftrightarrow> conn = None"
    using i(4) i(5) i(6) by (simp add: release_result)
  have 3: "\<forall>(s, x, out, s') \<in> set (steps s0 xs).
           (Connection_close \<in> set (drop (length (calls s)) (calls s'))
              \<longleftrightarrow> x = Release \<and> conn = None \<and> connection s \<noteq> None)
           \<and> (conn \<noteq> None \<longrightarrow> Connection_close \<notin> set (calls s'))"
    using steps_close [of s0 xs] i(4) i(6) by fastforce
  from 1 2 3 show ?thesis by blast
qed

theorem connection_closed_iff_owned_witness:
  "init example_lock_base ''jobs:42'' None (Some 5) None None
     DEFAULT_THREAD_SLEEP_TIME DEFAULT_UNAVAILABLE_TIMEOUT None = Inr owned_lock
   \<and> init example_lock_base ''jobs:42'' (Some (Redis [])) (Some 5) None None
     DEFAULT_THREAD_SLEEP_TIME DEFAULT_UNAVAILABLE_TIMEOUT None = Inr borrowed_lock
   \<and> close_connection owned_lock \<and> \<not> close_connection borrowed_lock
   \<and> Connection_close \<in> set (calls (snd (release owned_lock)))
   \<and> Connection_close \<notin> set (calls (snd (release borrowed_lock)))
   \<and> (borrowed_lock, Release, Returned_none, snd (release borrowed_lock))
       \<in> set (steps borrowed_lock [Release])
   \<and> Connection_close \<notin> set (drop (length (calls borrowed_lock))
                                   (calls (snd (release borrowed_lock))))
   \<and> (owned_lock, Release, Returned_none, snd (release owned_lock))
       \<in> set (steps owned_lock [Release])
   \<and> connection owned_lock \<noteq> None
   \<and> Connection_close \<in> set (drop (length (calls owned_lock)) (calls (snd (release owned_lock))))"
proof -
  have mb: "(borrowed_lock, Release, Returned_none, snd (release borrowed_lock))
       \<in> set (steps borrowed_lock [Release])"
    by (simp add: release_result)
  have mo: "(owned_lock, Release, Returned_none, snd (release owned_lock))
       \<in> set (steps owned_lock [Release])"
    by (simp add: release_result)
  have co: "connection owned_lock \<noteq> None"
    by (simp add: owned_lock_def)
  note b = connection_closed_iff_owned [OF init_borrowed, of "[Release]"]
  note o = connection_closed_iff_owned [OF init_owned, of "[Release]"]
  from b mb have b3: "Connection_close \<notin> set (drop (length (calls borrowed_lock))
                                   (calls (snd (release borrowed_lock))))"
    by blast
  from o mo co have o3: "Connection_close \<in> set (drop (length (calls owned_lock))
                                   (calls (snd (release owned_lock))))"
    by blast
  from b o b3 o3 mb mo co init_borrowed init_owned show ?thesis
    by simp
qed

subsection \<open>Using an instance again after \<^verbatim>\<open>release\<close>\<close>

lemma try_acquire_no_connection:
  "connection s = None \<Longrightarrow> pubsub s = None \<Longrightarrow>
     try_acquire s message receivers = (Inl AttributeError, s)"
  by (simp add: try_acquire_def connection_pubsub_def)

lemma exec_no_connection:
  assumes "connection s = None" and "pubsub s = None" and "exec s x = (out, s')"
  shows "connection s' = None \<and> pubsub s' = None
     \<and> (\<forall>m n. x = Try_acquire m n \<longrightarrow> out = Raised AttributeError)
     \<and> (\<forall>tmo interval fail start_time w ws.
          x = Acquire tmo interval fail start_time (w # ws) \<longrightarrow> out = Raised AttributeError)"
proof (cases x)
  case (Acquire tmo interval fail start_time ws)
  show ?thesis
  proof (cases ws)
    case Nil
    with assms Acquire show ?thesis
      by (auto simp: acquire_def Let_def)
  next
    case (Cons w ws')
    let ?s = "s\<lparr>calls := calls s @ [Time_time]\<rparr>"
    have t: "try_acquire ?s (next_message w) (receiver_count w) = (Inl AttributeError, ?s)"
      using assms(1,2) by (simp add: try_acquire_no_connection)
    have "acquire s tmo interval fail start_time (w # ws') = (Some (Inl AttributeError), ?s)"
      using acquire_loop_Cons [OF t] by (simp add: acquire_def Let_def)
    with assms Acquire Cons show ?thesis
      by auto
  qed
next
  case (Try_acquire message receivers)
  with assms show ?thesis
    by (auto simp: try_acquire_no_connection)
next
  case Release
  with assms show ?thesis
    by (auto simp: release_result)
qed

lemma steps_no_connection:
  "connection s0 = None \<Longrightarrow> pubsub s0 = None \<Longrightarrow>
   \<forall>(s, x, out, s') \<in> set (steps s0 xs).
      connection s' = None
      \<and> (\<forall>m n. x = Try_acquire m n \<longrightarrow> out = Raised AttributeError)
      \<and> (\<forall>tmo interval fail start_time w ws.
           x = Acquire tmo interval fail start_time (w # ws) \<longrightarrow> out = Raised AttributeError)"
proof (induction xs arbitrary: s0)
  case Nil
  show ?case by simp
next
  case (Cons x xs)
  obtain out s1 where e: "exec s0 x = (out, s1)"
    by (cases "exec s0 x")
  note h = exec_no_connection [OF Cons.prems e]
  from h have "connection s1 = None" and "pubsub s1 = None"
    by simp_all
  from Cons.IH [OF this] h e show ?case
    by simp
qed

text \<open>
  After \<^verbatim>\<open>release\<close> on a lock that owns its connection the connection is \<^verbatim>\<open>None\<close>
  and stays so through every later sequence of operations, in which every
  \<^verbatim>\<open>_try_acquire\<close> and every \<^verbatim>\<open>acquire\<close> (given a first answer of the world) raises
  \<^verbatim>\<open>AttributeError\<close>.
\<close>

lemma owning_lock_not_reusable:
  assumes "close_connection s"
  shows "connection (snd (release s)) = None
     \<and> (\<forall>(a, x, out, b) \<in> set (steps (snd (release s)) xs).
           connection b = None
           \<and> (\<forall>m n. x = Try_acquire m n \<longrightarrow> out = Raised AttributeError)
           \<and> (\<forall>tmo interval fail start_time w ws.
                x = Acquire tmo interval fail start_time (w # ws)
                  \<longrightarrow> out = Raised AttributeError))"
proof -
  from assms have c: "connection (snd (release s)) = None" and p: "pubsub (snd (release s)) = None"
    by (simp_all add: release_result)
  from c steps_no_connection [OF c p, of xs] show ?thesis
    by blast
qed

text \<open>
  C10. On the failing input: a lock built on a supplied connection, \<^verbatim>\<open>release\<close>, then
  an attempt on a channel that nobody holds (no message, receiver count 1). The
  connection is still there and the attempt makes a new subscription object, but it
  does not acquire: it raises \<^verbatim>\<open>TypeError\<close> from the constructor of the worker thread,
  and so does \<^verbatim>\<open>acquire\<close>. On the lock that owns its connection the same calls after
  \<^verbatim>\<open>release\<close> find the connection \<^verbatim>\<open>None\<close> and raise \<^verbatim>\<open>AttributeError\<close>, as the
  claim says.
\<close>

theorem reacquire_after_release_raises:
  "connection (snd (release borrowed_lock)) \<noteq> None
   \<and> pubsub (snd (release borrowed_lock)) = None
   \<and> fst (try_acquire (snd (release borrowed_lock)) None 1) = Inl TypeError
   \<and> pubsub (snd (try_acquire (snd (release borrowed_lock)) None 1)) = Some \<lparr>channels = {}\<rparr>
   \<and> thread (snd (try_acquire (snd (release borrowed_lock)) None 1)) = None
   \<and> fst (acquire (snd (release borrowed_lock)) None None None 100
        [\<lparr>next_message = None, receiver_count = 1, clock = 100\<rparr>]) = Some (Inl TypeError)
   \<and> connection (snd (release owned_lock)) = None
   \<and> fst (try_acquire (snd (release owned_lock)) None 1) = Inl AttributeError
   \<and> fst (acquire (snd (release owned_lock)) None None None 100
        [\<lparr>next_message = None, receiver_count = 1, clock = 100\<rparr>]) = Some (Inl AttributeError)"
proof -
  let ?w = "\<lparr>next_message = None, receiver_count = 1::int, clock = 100::real\<rparr>"
  let ?b = "snd (release borrowed_lock)"
  let ?o = "snd (release owned_lock)"
  have b: "connection ?b \<noteq> None" "pubsub ?b = None" "thread ?b = None"
    by (simp_all add: release_result borrowed_lock_def)
  have o: "connection ?o = None" "pubsub ?o = None"
    by (simp_all add: release_result owned_lock_def)
  have b1: "fst (try_acquire ?b None 1) = Inl TypeError"
    using b by (simp add: try_acquire_result accepted_def)
  have b2: "pubsub (snd (try_acquire ?b None 1)) = Some \<lparr>channels = {}\<rparr>"
    using b
    by (auto simp: try_acquire_def try_body_def client_defs start_keep_alive_thread_result
        accepted_def)
  have b3: "thread (snd (try_acquire ?b None 1)) = None"
    using b by (simp add: try_acquire_thread)
  have "fst (try_acquire (?b\<lparr>calls := calls ?b @ [Time_time]\<rparr>) None 1) = Inl TypeError"
    using b by (simp add: try_acquire_result accepted_def)
  then have tb: "try_acquire (?b\<lparr>calls := calls ?b @ [Time_time]\<rparr>) (next_message ?w)
      (receiver_count ?w)
      = (Inl TypeError, snd (try_acquire (?b\<lparr>calls := calls ?b @ [Time_time]\<rparr>) None 1))"
    by (cases "try_acquire (?b\<lparr>calls := calls ?b @ [Time_time]\<rparr>) None 1") simp
  have b4: "fst (acquire ?b None None None 100 [?w]) = Some (Inl TypeError)"
    using acquire_loop_Cons [OF tb] by (simp add: acquire_def)
  have o1: "fst (try_acquire ?o None 1) = Inl AttributeError"
    using o by (simp add: try_acquire_no_connection)
  have to: "try_acquire (?o\<lparr>calls := calls ?o @ [Time_time]\<rparr>) (next_message ?w)
      (receiver_count ?w) = (Inl AttributeError, ?o\<lparr>calls := calls ?o @ [Time_time]\<rparr>)"
    using o by (simp add: try_acquire_no_connection)
  have o2: "fst (acquire ?o None None None 100 [?w]) = Some (Inl AttributeError)"
    using acquire_loop_Cons [OF to] by (simp add: acquire_def)
  from b b1 b2 b3 b4 o o1 o2 show ?thesis by simp
qed

end
